theory Spec2Isabelle
  imports Main
begin

section \<open>Text and patterns\<close>

text \<open>
  A Python \<open>str\<close> is a sequence of Unicode code points and \<open>len\<close> counts code points.
  The class string produced by the classifier is a string over the ASCII letters listed
  in the comment at the top of \<open>badness.py\<close>.
\<close>

type_synonym codepoint = nat
type_synonym str = "codepoint list"

text \<open>
  Every regular expression of the module is an alternation of fixed sequences of
  single-character items (a literal, a bracket class, a negated bracket class or
  \<open>\w\<close>), without groups and without repetition. An item is the set of characters it
  accepts, an alternative is the list of its items, and a pattern is the list of its
  alternatives in the order in which they are written.
\<close>

type_synonym 'a item = "'a \<Rightarrow> bool"
type_synonym 'a pattern = "'a item list list"

definition lit :: "'a \<Rightarrow> 'a item" where
  "lit x = (\<lambda>c. c = x)"

definition one_of :: "'a list \<Rightarrow> 'a item" where
  "one_of xs = (\<lambda>c. c \<in> set xs)"

definition none_of :: "'a list \<Rightarrow> 'a item" where
  "none_of xs = (\<lambda>c. c \<notin> set xs)"

text \<open>An alternative matches at the start of the subject when each item accepts its character.\<close>

fun match_seq :: "'a item list \<Rightarrow> 'a list \<Rightarrow> bool" where
  "match_seq [] s = True"
| "match_seq (p # ps) [] = False"
| "match_seq (p # ps) (c # s) = (p c \<and> match_seq ps s)"

text \<open>
  The alternation takes the first alternative, in written order, that matches at the
  current position; the result is the number of characters it consumes.
\<close>

fun match_at :: "'a pattern \<Rightarrow> 'a list \<Rightarrow> nat option" where
  "match_at [] s = None"
| "match_at (alt # alts) s =
     (if match_seq alt s then Some (length alt) else match_at alts s)"

text \<open>
  \<open>findall\<close> of a compiled pattern without groups: scan from the left; where the pattern
  matches, record the matched text and go on right after it; where it does not, move one
  character on. A match of \<open>n \<ge> 1\<close> characters of \<open>c # s\<close> leaves \<open>drop (n - 1) s\<close>; an empty
  match is recorded and the scan moves one character on. No pattern of this module has an
  empty alternative.
\<close>

function findall :: "'a pattern \<Rightarrow> 'a list \<Rightarrow> 'a list list" where
  "findall re [] = (case match_at re [] of None \<Rightarrow> [] | Some n \<Rightarrow> [[]])"
| "findall re (c # s) =
     (case match_at re (c # s) of
        None \<Rightarrow> findall re s
      | Some n \<Rightarrow> take n (c # s) # findall re (drop (n - 1) s))"
  by pat_completeness auto
termination
  by (relation "measure (\<lambda>(re, s). length s)") auto

section \<open>Collaborators outside the module\<close>

text \<open>
  \<open>unicodedata.normalize('NFC', _)\<close> and the meaning of \<open>\w\<close> belong to the Python
  library, and the table of character classes is data of \<open>ftfy.chardata\<close>. They are
  parameters of the model.
\<close>

record externals =
  normalize_NFC :: "str \<Rightarrow> str"
  char_class :: "codepoint \<Rightarrow> char"
  word_char :: "codepoint \<Rightarrow> bool"

text \<open>
  Modelled from the spec: \<open>chars_to_classes\<close> is imported from \<open>ftfy.chardata\<close>, which is
  not among the sources. The classifier "maps each character of a string to one symbol
  from a small category alphabet, producing a same-length class string aligned one-to-one
  with the input".
\<close>

definition chars_to_classes :: "externals \<Rightarrow> str \<Rightarrow> string" where
  "chars_to_classes E string = map (char_class E) string"

section \<open>The three compiled patterns\<close>

definition exclusive_categories :: string where
  "exclusive_categories = ''MmN13''"

text \<open>
  \<open>_make_weirdness_regex\<close>: nine groups appended one by one, then one group
  \<open>cat1[others_range]\<close> for each character of \<open>exclusive_categories\<close>, joined by \<open>|\<close>.
\<close>

definition make_weirdness_regex :: "char pattern" where
  "make_weirdness_regex =
     [ [none_of ''CM'', lit CHR ''M''],
       [one_of ''Ll'', one_of ''AaC''],
       [one_of ''AaC'', one_of ''Ll''],
       [one_of ''LA'', lit CHR ''i''],
       [lit CHR ''i'', one_of ''LA''],
       [lit CHR ''2''],
       [lit CHR ''X''],
       [lit CHR ''P''],
       [lit CHR ''_''] ]
     @ map (\<lambda>cat1. [lit cat1, one_of (filter (\<lambda>c. c \<noteq> cat1) exclusive_categories)])
         exclusive_categories"

text \<open>
  The characters of \<open>COMMON_SYMBOL_RE\<close>, in the order of the source, by code point:
  HORIZONTAL ELLIPSIS, EM DASH, EN DASH, LEFT SINGLE and LEFT DOUBLE QUOTATION MARK,
  RIGHT SINGLE and RIGHT DOUBLE QUOTATION MARK, INVERTED EXCLAMATION MARK, INVERTED
  QUESTION MARK, DEGREE SIGN, TRADE MARK SIGN, REGISTERED SIGN, the single and the double
  angle quotation marks, NO-BREAK SPACE, ACUTE ACCENT, MULTIPLICATION SIGN, LATIN SMALL
  LETTER SHARP S and the byte-order mark.
\<close>

definition common_symbols :: "codepoint list" where
  "common_symbols =
     [0x2026, 0x2014, 0x2013,
      0x2018, 0x201C,
      0x2019, 0x201D,
      0xA1, 0xBF, 0xB0,
      0x2122,
      0xAE,
      0x2039,
      0x203A,
      0xAB,
      0xBB,
      0xA0,
      0xB4, 0xD7, 0xDF,
      0xFEFF]"

definition common_symbol_regex :: "codepoint pattern" where
  "common_symbol_regex = [[one_of common_symbols]]"

text \<open>
  In the text of \<open>MOJIBAKE_SYMBOL_RE\<close> every character outside ASCII reads as question
  marks, so that only the shape of its seven alternatives is legible: where the bracket
  classes and the literal runs stand, the range \<open>\x80-\x9f\<close> in the first alternative,
  \<open>\x9f\<close> in the fifth, and the three \<open>\w\<close>. Each run of question marks is read as
  literal characters outside ASCII, in a bracket class as members of the class. The
  illegible characters are parameters of the model, one field for each bracket class and
  each literal run.
\<close>

record mojibake_chars =
  lead1 :: "codepoint list"
  trail1 :: "codepoint list"
  lead2 :: "codepoint list"
  trail2 :: "codepoint list"
  lead3 :: "codepoint list"
  trail3 :: "codepoint list"
  run4 :: "codepoint list"
  trail4 :: "codepoint list"
  lead5 :: "codepoint list"
  trail5 :: "codepoint list"
  run6 :: "codepoint list"
  run7 :: "codepoint list"
  trail7 :: "codepoint list"

definition mojibake_symbol_regex :: "externals \<Rightarrow> mojibake_chars \<Rightarrow> codepoint pattern" where
  "mojibake_symbol_regex E g =
     [ [one_of (lead1 g), (\<lambda>c. (0x80 \<le> c \<and> c \<le> 0x9F) \<or> c \<in> set (trail1 g))],
       [one_of (lead2 g), one_of (trail2 g), word_char E],
       [one_of (lead3 g), one_of (trail3 g)],
       [word_char E] @ map lit (run4 g) @ [one_of (trail4 g), word_char E],
       [one_of (lead5 g), one_of (trail5 g @ [0x9F])],
       map lit (run6 g),
       map lit (run7 g) @ [one_of (trail7 g)] ]"

text \<open>
  The module-level names bound when the module is imported. The functions below read
  them; nothing in the module assigns to them afterwards.
\<close>

record module_globals =
  WEIRDNESS_RE :: "char pattern"
  COMMON_SYMBOL_RE :: "codepoint pattern"
  MOJIBAKE_SYMBOL_RE :: "codepoint pattern"

definition module_import :: "externals \<Rightarrow> mojibake_chars \<Rightarrow> module_globals" where
  "module_import E g =
     \<lparr> WEIRDNESS_RE = make_weirdness_regex,
       COMMON_SYMBOL_RE = common_symbol_regex,
       MOJIBAKE_SYMBOL_RE = mojibake_symbol_regex E g \<rparr>"

section \<open>The scoring functions\<close>

definition sequence_weirdness :: "externals \<Rightarrow> module_globals \<Rightarrow> str \<Rightarrow> int" where
  "sequence_weirdness E G text =
     (let text2 = normalize_NFC E text;
          weirdness = int (length (findall (WEIRDNESS_RE G) (chars_to_classes E text2)));
          adjustment =
            int (length (findall (MOJIBAKE_SYMBOL_RE G) text2)) * 2 -
            int (length (findall (COMMON_SYMBOL_RE G) text2))
      in weirdness * 2 + adjustment)"

definition text_cost :: "externals \<Rightarrow> module_globals \<Rightarrow> str \<Rightarrow> int" where
  "text_cost E G text = sequence_weirdness E G text + int (length text)"

section \<open>Calls\<close>

text \<open>
  A call runs in the module it belongs to: it is given the module globals, and either
  does not return (\<open>None\<close>) or returns a value together with the globals as they are
  then. Statements are put in sequence with \<open>py_bind\<close>; reading a module-level name is
  \<open>load_global\<close>.
\<close>

type_synonym 'a py = "module_globals \<Rightarrow> ('a \<times> module_globals) option"

definition py_return :: "'a \<Rightarrow> 'a py" where
  "py_return x = (\<lambda>G. Some (x, G))"

definition py_bind :: "'a py \<Rightarrow> ('a \<Rightarrow> 'b py) \<Rightarrow> 'b py" where
  "py_bind m f = (\<lambda>G. case m G of None \<Rightarrow> None | Some (x, G') \<Rightarrow> f x G')"

definition load_global :: "(module_globals \<Rightarrow> 'a) \<Rightarrow> 'a py" where
  "load_global name = (\<lambda>G. Some (name G, G))"

text \<open>
  The search loop of \<open>findall\<close>, as a loop over the positions \<open>0\<close> to \<open>len(s)\<close> of the
  subject: at each position the pattern is tried; a match is appended to the list of
  matches and the position moves past it, by one character at least; without a match the
  position moves one character on. The loop is not assumed to end. Calling \<open>findall\<close> on
  a compiled pattern runs it from position 0 and does not touch the module globals.
\<close>

partial_function (option) scan :: "'a pattern \<Rightarrow> 'a list \<Rightarrow> nat \<Rightarrow> 'a list list \<Rightarrow> 'a list list option" where
  "scan re s pos found =
     (if length s < pos then Some found
      else (case match_at re (drop pos s) of
              None \<Rightarrow> scan re s (pos + 1) found
            | Some n \<Rightarrow> scan re s (pos + max 1 n) (found @ [take n (drop pos s)])))"

definition pattern_findall :: "'a pattern \<Rightarrow> 'a list \<Rightarrow> 'a list list py" where
  "pattern_findall re s = (\<lambda>G. case scan re s 0 [] of None \<Rightarrow> None | Some ms \<Rightarrow> Some (ms, G))"

text \<open>
  The bodies of \<open>sequence_weirdness\<close> (lines 184 to 190) and \<open>text_cost\<close> (line 201),
  statement by statement: the three patterns are read from the module globals where the
  body names them, the other names are local to the call.
\<close>

definition sequence_weirdness_call :: "externals \<Rightarrow> str \<Rightarrow> int py" where
  "sequence_weirdness_call E text =
     py_bind (py_return (normalize_NFC E text)) (\<lambda>text2.
     py_bind (load_global WEIRDNESS_RE) (\<lambda>weirdness_re.
     py_bind (pattern_findall weirdness_re (chars_to_classes E text2)) (\<lambda>weird.
     py_bind (py_return (int (length weird))) (\<lambda>weirdness.
     py_bind (load_global MOJIBAKE_SYMBOL_RE) (\<lambda>mojibake_re.
     py_bind (pattern_findall mojibake_re text2) (\<lambda>mojibake.
     py_bind (load_global COMMON_SYMBOL_RE) (\<lambda>common_re.
     py_bind (pattern_findall common_re text2) (\<lambda>common.
     py_bind (py_return (int (length mojibake) * 2 - int (length common))) (\<lambda>adjustment.
     py_return (weirdness * 2 + adjustment))))))))))"

definition text_cost_call :: "externals \<Rightarrow> str \<Rightarrow> int py" where
  "text_cost_call E text =
     py_bind (sequence_weirdness_call E text) (\<lambda>weirdness.
     py_return (weirdness + int (length text)))"

text \<open>
  A sequence of calls, each started in the globals the one before it left; the sequence
  does not return if one of its calls does not. \<open>pure_result\<close> is the value of a call as
  a function of its argument and of given globals.
\<close>

datatype call = Sequence_weirdness str | Text_cost str

fun exec :: "externals \<Rightarrow> call \<Rightarrow> int py" where
  "exec E (Sequence_weirdness t) = sequence_weirdness_call E t"
| "exec E (Text_cost t) = text_cost_call E t"

fun run :: "externals \<Rightarrow> call list \<Rightarrow> int list py" where
  "run E [] = py_return []"
| "run E (c # cs) =
     py_bind (exec E c) (\<lambda>r. py_bind (run E cs) (\<lambda>rs. py_return (r # rs)))"

fun pure_result :: "externals \<Rightarrow> module_globals \<Rightarrow> call \<Rightarrow> int" where
  "pure_result E G (Sequence_weirdness t) = sequence_weirdness E G t"
| "pure_result E G (Text_cost t) = text_cost E G t"

section \<open>A concrete configuration\<close>

text \<open>
  Concrete collaborators, used to evaluate the definitions. \<open>sample_NFC\<close> composes
  LATIN SMALL LETTER E followed by COMBINING ACUTE ACCENT and leaves everything else
  alone; \<open>sample_class\<close> follows the table of classes on a few ranges (C1 controls,
  ASCII lowercase letters, the combining acute accent, the multiplication sign, three
  symbols of category So, two spaces, the private-use area of the basic plane) and
  answers \<open>o\<close> elsewhere; \<open>sample_word\<close> accepts ASCII letters, digits and underscore
  and two accented letters. \<open>sample_chars\<close> is one assignment of the illegible characters
  of the mojibake pattern.
\<close>

fun sample_NFC :: "str \<Rightarrow> str" where
  "sample_NFC (a # b # t) =
     (if a = 0x65 \<and> b = 0x301 then 0xE9 # sample_NFC t else a # sample_NFC (b # t))"
| "sample_NFC t = t"

definition sample_class :: "codepoint \<Rightarrow> char" where
  "sample_class c =
     (if 0x80 \<le> c \<and> c \<le> 0x9F then CHR ''X''
      else if (0x61 \<le> c \<and> c \<le> 0x7A) \<or> c = 0xDF \<or> c = 0xE9 then CHR ''l''
      else if c = 0x301 then CHR ''M''
      else if c = 0xD7 then CHR ''1''
      else if c = 0xAE \<or> c = 0xB0 \<or> c = 0x2122 then CHR ''3''
      else if c = 0x20 \<or> c = 0xA0 then CHR '' ''
      else if 0xE000 \<le> c \<and> c \<le> 0xF8FF then CHR ''P''
      else CHR ''o'')"

definition sample_word :: "codepoint \<Rightarrow> bool" where
  "sample_word c =
     ((0x30 \<le> c \<and> c \<le> 0x39) \<or> (0x41 \<le> c \<and> c \<le> 0x5A) \<or> c = 0x5F \<or>
      (0x61 \<le> c \<and> c \<le> 0x7A) \<or> c = 0xDF \<or> c = 0xE9)"

definition sample_externals :: externals where
  "sample_externals =
     \<lparr> normalize_NFC = sample_NFC, char_class = sample_class, word_char = sample_word \<rparr>"

definition sample_chars :: mojibake_chars where
  "sample_chars =
     \<lparr> lead1 = [0xC2, 0xC3], trail1 = [0xA1, 0xAB],
       lead2 = [0xC2, 0xC3], trail2 = [0xBB, 0xA9],
       lead3 = [0xAC, 0x221A], trail3 = [0xC4, 0xDF],
       run4 = [0x221A], trail4 = [0xB1, 0x2202],
       lead5 = [0xF0, 0x111], trail5 = [0x178],
       run6 = [0xE2, 0x20AC],
       run7 = [0x432, 0x402], trail7 = [0x2122, 0x201C] \<rparr>"

section \<open>Matching lemmas\<close>

lemma match_seq_Nil_iff: "match_seq ps [] = (ps = [])"
  by (cases ps) simp_all

lemma match_seq_length: "match_seq ps s \<Longrightarrow> length ps \<le> length s"
  by (induction ps s rule: match_seq.induct) simp_all

lemma match_seq_append: "match_seq ps s \<Longrightarrow> match_seq ps (s @ u)"
  by (induction ps s rule: match_seq.induct) simp_all

lemma match_seq_take_avoids:
  "match_seq ps s \<Longrightarrow> \<forall>p \<in> set ps. \<not> p x \<Longrightarrow> x \<notin> set (take (length ps) s)"
  by (induction ps s rule: match_seq.induct) auto

lemma match_seq_snoc:
  "match_seq ps (s @ [c]) =
     (match_seq ps s \<or> (length ps = Suc (length s) \<and> match_seq (butlast ps) s \<and> last ps c))"
proof (induction ps s rule: match_seq.induct)
  case (1 s)
  then show ?case by simp
next
  case (2 p ps)
  then show ?case by (auto simp: match_seq_Nil_iff)
next
  case (3 p ps a s)
  then show ?case by (cases ps) auto
qed

lemma match_at_Some:
  "match_at re s = Some n \<Longrightarrow> \<exists>alt \<in> set re. length alt = n \<and> match_seq alt s"
  by (induction re) (auto split: if_splits)

lemma match_at_None_iff: "match_at re s = None \<longleftrightarrow> (\<forall>alt \<in> set re. \<not> match_seq alt s)"
  by (induction re) auto

lemma match_at_le: "match_at re s = Some n \<Longrightarrow> n \<le> length s"
  using match_at_Some match_seq_length by blast

lemma match_at_cong:
  "(\<And>alt. alt \<in> set re \<Longrightarrow> match_seq alt s = match_seq alt s') \<Longrightarrow> match_at re s = match_at re s'"
  by (induction re) auto

lemma findall_Nil: "\<forall>alt \<in> set re. alt \<noteq> [] \<Longrightarrow> findall re [] = []"
proof -
  assume "\<forall>alt \<in> set re. alt \<noteq> []"
  then have "match_at re [] = None"
    by (simp add: match_at_None_iff match_seq_Nil_iff)
  then show ?thesis by simp
qed

lemma match_at_pos: "\<forall>alt \<in> set re. alt \<noteq> [] \<Longrightarrow> match_at re s = Some n \<Longrightarrow> 0 < n"
  using match_at_Some by fastforce

lemma findall_single: "findall [[p]] s = map (\<lambda>c. [c]) (filter p s)"
  by (induction s) simp_all

text \<open>Appending a character that no alternative of two or more items can end with.\<close>

lemma match_at_snoc_same:
  assumes "s \<noteq> []" and "\<forall>alt \<in> set re. length alt = Suc (length s) \<longrightarrow> \<not> last alt c"
  shows "match_at re (s @ [c]) = match_at re s"
proof (rule match_at_cong)
  fix alt assume "alt \<in> set re"
  with assms show "match_seq alt (s @ [c]) = match_seq alt s"
    by (auto simp: match_seq_snoc)
qed

lemma findall_snoc:
  "\<forall>alt \<in> set re. alt \<noteq> [] \<and> (2 \<le> length alt \<longrightarrow> \<not> last alt c)
   \<Longrightarrow> findall re (s @ [c]) = findall re s @ findall re [c]"
proof (induction re s rule: findall.induct)
  case (1 re)
  then show ?case by (simp add: findall_Nil del: findall.simps)
next
  case (2 re a s)
  have ne: "\<forall>alt \<in> set re. alt \<noteq> []" using 2(3) by blast
  have same: "match_at re ((a # s) @ [c]) = match_at re (a # s)"
    by (rule match_at_snoc_same) (use 2(3) in auto)
  show ?case
  proof (cases "match_at re (a # s)")
    case None
    with same 2(1)[OF None 2(3)] show ?thesis by simp
  next
    case (Some n)
    have "0 < n" using match_at_pos[OF ne Some] .
    moreover have "n \<le> Suc (length s)" using match_at_le[OF Some] by simp
    ultimately have "take n ((a # s) @ [c]) = take n (a # s)"
      and "drop (n - 1) (s @ [c]) = drop (n - 1) s @ [c]"
      by (cases n; simp)+
    with same Some 2(2)[OF Some 2(3)] show ?thesis by simp
  qed
qed

text \<open>Appending a character never loses a match when only short alternatives can end with it.\<close>

lemma match_at_append_not_None: "match_at re s \<noteq> None \<Longrightarrow> match_at re (s @ u) \<noteq> None"
  by (auto simp: match_at_None_iff intro: match_seq_append)

lemma findall_snoc_mono:
  "\<forall>alt \<in> set re. alt \<noteq> [] \<and> (last alt c \<longrightarrow> length alt \<le> 2)
   \<Longrightarrow> length (findall re s) \<le> length (findall re (s @ [c]))"
proof (induction re s rule: findall.induct)
  case (1 re)
  then show ?case by (simp add: findall_Nil del: findall.simps)
next
  case (2 re a s)
  have ne: "\<forall>alt \<in> set re. alt \<noteq> []" using 2(3) by blast
  show ?case
  proof (cases "s = []")
    case True
    show ?thesis
    proof (cases "match_at re [a]")
      case None
      then show ?thesis using True by (simp add: findall_Nil[OF ne] del: findall.simps(1))
    next
      case (Some n)
      then have "match_at re ([a] @ [c]) \<noteq> None"
        using match_at_append_not_None by fastforce
      then obtain m where "match_at re [a, c] = Some m" by auto
      with Some True show ?thesis by (simp add: findall_Nil[OF ne] del: findall.simps(1))
    qed
  next
    case False
    then have "2 < Suc (length (a # s))" by (cases s) auto
    then have same: "match_at re ((a # s) @ [c]) = match_at re (a # s)"
      using 2(3) by (intro match_at_snoc_same) auto
    show ?thesis
    proof (cases "match_at re (a # s)")
      case None
      with same 2(1)[OF None 2(3)] show ?thesis by simp
    next
      case (Some n)
      have "0 < n" using match_at_pos[OF ne Some] .
      moreover have "n \<le> Suc (length s)" using match_at_le[OF Some] by simp
      ultimately have "drop (n - 1) (s @ [c]) = drop (n - 1) s @ [c]" by auto
      with same Some 2(2)[OF Some 2(3)] show ?thesis by simp
    qed
  qed
qed

text \<open>A character that is accepted only in first position and always matches on its own.\<close>

lemma findall_counts_char:
  assumes "\<forall>alt \<in> set re. alt \<noteq> [] \<and> (\<forall>p \<in> set (tl alt). \<not> p x)"
    and "match_at re [x] \<noteq> None"
  shows "length (filter (\<lambda>m. x \<in> set m) (findall re s)) = count_list s x"
  using assms
proof (induction re s rule: findall.induct)
  case (1 re)
  then show ?case by (simp add: findall_Nil del: findall.simps)
next
  case (2 re a s)
  show ?case
  proof (cases "match_at re (a # s)")
    case None
    have "match_at re ([x] @ s) \<noteq> None"
      using 2(4) by (rule match_at_append_not_None)
    with None have "a \<noteq> x" by auto
    with None 2(1)[OF None 2(3) 2(4)] show ?thesis by simp
  next
    case (Some n)
    then obtain alt where alt: "alt \<in> set re" "length alt = n" "match_seq alt (a # s)"
      using match_at_Some by blast
    have altc: "alt \<noteq> [] \<and> (\<forall>p \<in> set (tl alt). \<not> p x)"
      using bspec[OF 2(3) alt(1)] .
    then obtain q qs where q: "alt = q # qs" by (cases alt) simp_all
    have tl: "match_seq qs s" "\<forall>p \<in> set qs. \<not> p x" "n - 1 = length qs"
      using alt(2,3) altc unfolding q by simp_all
    have notin: "x \<notin> set (take (n - 1) s)"
      using match_seq_take_avoids[OF tl(1) tl(2)] tl(3) by simp
    have "0 < n" using alt(2) unfolding q by simp
    then have tk: "take n (a # s) = a # take (n - 1) s" by (cases n) auto
    have "count_list s x = count_list (take (n - 1) s @ drop (n - 1) s) x" by simp
    also have "\<dots> = count_list (drop (n - 1) s) x"
      using notin by (simp only: count_list_append count_notin) simp
    finally have cnt: "count_list s x = count_list (drop (n - 1) s) x" .
    show ?thesis
      using Some 2(2)[OF Some 2(3) 2(4)] tk notin cnt by simp
  qed
qed

section \<open>Facts about the three patterns\<close>

lemma weirdness_regex_first_only:
  "\<forall>alt \<in> set make_weirdness_regex. alt \<noteq> [] \<and> (\<forall>p \<in> set (tl alt). \<not> p CHR ''P'')"
  by (simp add: make_weirdness_regex_def exclusive_categories_def lit_def one_of_def none_of_def)

lemma weirdness_regex_P: "match_at make_weirdness_regex [CHR ''P''] \<noteq> None"
  by (simp add: make_weirdness_regex_def exclusive_categories_def lit_def one_of_def none_of_def)

lemma private_use_before_mark: "findall make_weirdness_regex ''PM'' = [''PM'']"
  by (simp add: make_weirdness_regex_def exclusive_categories_def lit_def one_of_def none_of_def)

lemma weirdness_regex_X_last:
  "\<forall>alt \<in> set make_weirdness_regex. alt \<noteq> [] \<and> (2 \<le> length alt \<longrightarrow> \<not> last alt CHR ''X'')"
  by (simp add: make_weirdness_regex_def exclusive_categories_def lit_def one_of_def none_of_def)

lemma weirdness_regex_X: "findall make_weirdness_regex [CHR ''X''] = [[CHR ''X'']]"
  by (simp add: make_weirdness_regex_def exclusive_categories_def lit_def one_of_def none_of_def)

lemma common_regex_C1:
  "0x80 \<le> c \<Longrightarrow> c \<le> 0x9F \<Longrightarrow> findall common_symbol_regex (s @ [c]) = findall common_symbol_regex s"
  by (simp add: common_symbol_regex_def findall_single one_of_def common_symbols_def)

lemma common_regex_le: "length (findall common_symbol_regex s) \<le> length s"
  by (simp add: common_symbol_regex_def findall_single)

lemma mojibake_regex_C1:
  assumes "\<not> word_char E c" "run6 g \<noteq> []" "c \<notin> set (run6 g)" "c \<notin> set (trail7 g)"
  shows "\<forall>alt \<in> set (mojibake_symbol_regex E g). alt \<noteq> [] \<and> (last alt c \<longrightarrow> length alt \<le> 2)"
  using assms last_in_set[of "run6 g"]
  by (auto simp add: mojibake_symbol_regex_def lit_def one_of_def last_map)

lemma mojibake_regex_Nil: "run6 g \<noteq> [] \<Longrightarrow> findall (mojibake_symbol_regex E g) [] = []"
  by (rule findall_Nil) (simp add: mojibake_symbol_regex_def)

lemma weirdness_regex_Nil: "findall make_weirdness_regex [] = []"
  by (rule findall_Nil) (simp add: make_weirdness_regex_def exclusive_categories_def)

lemmas sample_defs =
  sample_externals_def sample_chars_def sample_class_def sample_word_def
  module_import_def make_weirdness_regex_def exclusive_categories_def common_symbol_regex_def
  common_symbols_def mojibake_symbol_regex_def lit_def one_of_def none_of_def
  sequence_weirdness_def text_cost_def chars_to_classes_def Let_def


lemma globals_simps:
  "WEIRDNESS_RE (module_import E g) = make_weirdness_regex"
  "COMMON_SYMBOL_RE (module_import E g) = common_symbol_regex"
  "MOJIBAKE_SYMBOL_RE (module_import E g) = mojibake_symbol_regex E g"
  by (simp_all add: module_import_def)

section \<open>The search loop and the calls\<close>

text \<open>
  The loop returns on every pattern and every subject, and what it returns from position
  \<open>pos\<close> on is \<open>findall\<close> of the rest of the subject.
\<close>

lemma scan_end: "length s < pos \<Longrightarrow> scan re s pos found = Some found"
  by (subst scan.simps) simp

lemma scan_findall:
  "pos \<le> length s \<Longrightarrow> scan re s pos found = Some (found @ findall re (drop pos s))"
proof (induction "length s - pos" arbitrary: pos found rule: less_induct)
  case less
  show ?case
  proof (cases "pos = length s")
    case True
    have "n = 0" if "match_at re [] = Some n" for n
      using match_at_le[OF that] by simp
    with True show ?thesis
      by (subst scan.simps) (auto simp add: scan_end split: option.splits)
  next
    case False
    with less.prems have lt: "pos < length s" by simp
    then have dr: "drop pos s = s ! pos # drop (Suc pos) s"
      by (simp add: Cons_nth_drop_Suc)
    show ?thesis
    proof (cases "match_at re (drop pos s)")
      case None
      have "scan re s (pos + 1) found = Some (found @ findall re (drop (pos + 1) s))"
        using lt by (intro less.hyps) auto
      with None lt show ?thesis
        by (subst scan.simps) (simp add: dr)
    next
      case (Some n)
      have "n \<le> length s - pos" using match_at_le[OF Some] by simp
      then have le: "pos + max 1 n \<le> length s" using lt by auto
      have "scan re s (pos + max 1 n) (found @ [take n (drop pos s)])
              = Some ((found @ [take n (drop pos s)]) @ findall re (drop (pos + max 1 n) s))"
        using lt le by (intro less.hyps) auto
      moreover have "drop (n - 1) (drop (Suc pos) s) = drop (pos + max 1 n) s"
        by (cases n) (simp_all add: add.commute)
      moreover have "findall re (drop pos s)
              = take n (drop pos s) # findall re (drop (n - 1) (drop (Suc pos) s))"
        using Some unfolding dr by simp
      ultimately show ?thesis
        using Some lt by (subst scan.simps) simp
    qed
  qed
qed

lemma pattern_findall_returns: "pattern_findall re s G = Some (findall re s, G)"
  by (simp add: pattern_findall_def scan_findall)

lemma sequence_weirdness_call_returns:
  "sequence_weirdness_call E text G = Some (sequence_weirdness E G text, G)"
  by (simp add: sequence_weirdness_call_def sequence_weirdness_def py_bind_def py_return_def
      load_global_def pattern_findall_returns Let_def)

lemma text_cost_call_returns:
  "text_cost_call E text G = Some (text_cost E G text, G)"
  by (simp add: text_cost_call_def text_cost_def py_bind_def py_return_def
      sequence_weirdness_call_returns)

lemma exec_returns: "exec E c G = Some (pure_result E G c, G)"
  by (cases c) (simp_all add: sequence_weirdness_call_returns text_cost_call_returns)

section \<open>Properties\<close>

text \<open>
  C1. The cost of a text is its weirdness plus the number of characters of the text as
  given (not of its normal form), as integers, with no clamping.
\<close>

theorem text_cost_is_weirdness_plus_length:
  "text_cost E G text = sequence_weirdness E G text + int (length text)"
  by (simp add: text_cost_def)

text \<open>
  C2. The weirdness is twice the number of matches of the weirdness pattern in the class
  string of the NFC form, plus twice the number of mojibake matches in the NFC form,
  minus the number of common-symbol matches in the NFC form.
\<close>

theorem sequence_weirdness_formula:
  "sequence_weirdness E G text =
     int (length (findall (WEIRDNESS_RE G) (chars_to_classes E (normalize_NFC E text)))) * 2
     + (int (length (findall (MOJIBAKE_SYMBOL_RE G) (normalize_NFC E text))) * 2
        - int (length (findall (COMMON_SYMBOL_RE G) (normalize_NFC E text))))"
  by (simp add: sequence_weirdness_def Let_def)

text \<open>
  C3. The weirdness of a text equals the weirdness of its NFC form. The function
  normalizes its argument first, so this holds as soon as normalizing the NFC form again
  gives the NFC form back, which is how the Unicode standard defines NFC.
\<close>

theorem sequence_weirdness_NFC_invariant:
  "normalize_NFC E (normalize_NFC E text) = normalize_NFC E text \<Longrightarrow>
   sequence_weirdness E G text = sequence_weirdness E G (normalize_NFC E text)"
  by (simp add: sequence_weirdness_def)

text \<open>
  At \<open>e\<close> followed by a combining acute accent, whose NFC form is the single character
  \<open>U+00E9\<close>.
\<close>

theorem sequence_weirdness_NFC_invariant_witness:
  "normalize_NFC sample_externals (normalize_NFC sample_externals [0x65, 0x301])
     = normalize_NFC sample_externals [0x65, 0x301]
   \<and> normalize_NFC sample_externals [0x65, 0x301] = [0xE9]
   \<and> sequence_weirdness sample_externals (module_import sample_externals sample_chars) [0x65, 0x301]
     = sequence_weirdness sample_externals (module_import sample_externals sample_chars) [0xE9]"
proof -
  have h: "normalize_NFC sample_externals (normalize_NFC sample_externals [0x65, 0x301])
     = normalize_NFC sample_externals [0x65, 0x301]"
    by (simp add: sample_externals_def)
  have e: "normalize_NFC sample_externals [0x65, 0x301] = [0xE9]"
    by (simp add: sample_externals_def)
  show ?thesis
    using h e sequence_weirdness_NFC_invariant[OF h, of "module_import sample_externals sample_chars"]
    by simp
qed

text \<open>
  C4. Appending a C1 control character \<open>c\<close> (\<open>U+0080\<close> to \<open>U+009F\<close>) to any text raises
  the weirdness by at least 2. What the collaborators do with a C1 control is assumed:
  the classifier gives it class \<open>X\<close>, \<open>\w\<close> does not accept it, and NFC leaves it in place
  at the end of the text. Of the illegible characters it is assumed that the literal run
  of the sixth alternative is not empty and does not contain \<open>c\<close>, and that the bracket
  class of the seventh does not contain \<open>c\<close>. The new character is one more match of the
  weirdness pattern, takes no mojibake match away (it may complete one, after a lead
  character of the first or fifth alternative) and is not a common symbol.
\<close>

theorem appending_C1_control:
  assumes c1: "0x80 \<le> c" "c \<le> 0x9F"
    and cls: "char_class E c = CHR ''X''"
    and nw: "\<not> word_char E c"
    and nfc: "normalize_NFC E (text @ [c]) = normalize_NFC E text @ [c]"
    and g: "run6 g \<noteq> []" "c \<notin> set (run6 g)" "c \<notin> set (trail7 g)"
  shows "sequence_weirdness E (module_import E g) text + 2
           \<le> sequence_weirdness E (module_import E g) (text @ [c])"
proof -
  define t2 where "t2 = normalize_NFC E text"
  have w: "findall make_weirdness_regex (chars_to_classes E (t2 @ [c]))
             = findall make_weirdness_regex (chars_to_classes E t2) @ [[CHR ''X'']]"
    using findall_snoc[OF weirdness_regex_X_last, of "chars_to_classes E t2"] cls
    by (simp add: chars_to_classes_def weirdness_regex_X del: findall.simps)
  have m: "length (findall (mojibake_symbol_regex E g) t2)
             \<le> length (findall (mojibake_symbol_regex E g) (t2 @ [c]))"
    by (rule findall_snoc_mono) (rule mojibake_regex_C1[OF nw g])
  have k: "findall common_symbol_regex (t2 @ [c]) = findall common_symbol_regex t2"
    using c1 by (rule common_regex_C1)
  show ?thesis
    using m by (simp add: sequence_weirdness_def globals_simps nfc w k flip: t2_def)
qed

text \<open>
  At \<open>U+00C3\<close> followed by \<open>U+0085\<close>: the weirdness goes from 0 to 4, one match of \<open>X\<close>
  and one mojibake match of the first alternative.
\<close>

theorem appending_C1_control_witness:
  "(0x80::nat) \<le> 0x85 \<and> (0x85::nat) \<le> 0x9F
   \<and> char_class sample_externals 0x85 = CHR ''X''
   \<and> \<not> word_char sample_externals 0x85
   \<and> normalize_NFC sample_externals ([0xC3] @ [0x85]) = normalize_NFC sample_externals [0xC3] @ [0x85]
   \<and> run6 sample_chars \<noteq> [] \<and> 0x85 \<notin> set (run6 sample_chars) \<and> 0x85 \<notin> set (trail7 sample_chars)
   \<and> sequence_weirdness sample_externals (module_import sample_externals sample_chars) [0xC3] = 0
   \<and> sequence_weirdness sample_externals (module_import sample_externals sample_chars) ([0xC3] @ [0x85]) = 4"
proof -
  have h1: "(0x80::nat) \<le> 0x85" and h2: "(0x85::nat) \<le> 0x9F" by simp_all
  have h3: "char_class sample_externals 0x85 = CHR ''X''"
    by (simp add: sample_externals_def sample_class_def)
  have h4: "\<not> word_char sample_externals 0x85"
    by (simp add: sample_externals_def sample_word_def)
  have h5: "normalize_NFC sample_externals ([0xC3] @ [0x85])
              = normalize_NFC sample_externals [0xC3] @ [0x85]"
    by (simp add: sample_externals_def)
  have h6: "run6 sample_chars \<noteq> []" and h7: "0x85 \<notin> set (run6 sample_chars)"
    and h8: "0x85 \<notin> set (trail7 sample_chars)"
    by (simp_all add: sample_chars_def)
  have v: "sequence_weirdness sample_externals (module_import sample_externals sample_chars) [0xC3] = 0"
    by (simp add: sample_defs)
  show ?thesis
    using h1 h2 h3 h4 h5 h6 h7 h8 v appending_C1_control[OF h1 h2 h3 h4 h5 h6 h7 h8]
    by (simp add: sample_defs)
qed

text \<open>
  C6. In every class string, each character of class \<open>P\<close> (private use) is counted as one
  match of the weirdness pattern: the matches that contain a \<open>P\<close> are exactly as many as
  the occurrences of \<open>P\<close>, so that the number of matches is at least the number of
  private-use characters. (The match that counts a \<open>P\<close> is the alternative \<open>P\<close> itself,
  or \<open>[^CM]M\<close> when a mark follows; no alternative accepts \<open>P\<close> in second position, and
  none holds two.)
\<close>

theorem private_use_counted_once:
  "length (filter (\<lambda>m. CHR ''P'' \<in> set m) (findall make_weirdness_regex classes))
     = count_list classes CHR ''P''
   \<and> count_list classes CHR ''P'' \<le> length (findall make_weirdness_regex classes)"
proof -
  have eq: "length (filter (\<lambda>m. CHR ''P'' \<in> set m) (findall make_weirdness_regex classes))
     = count_list classes CHR ''P''"
    using weirdness_regex_first_only weirdness_regex_P by (rule findall_counts_char)
  have "length (filter (\<lambda>m. CHR ''P'' \<in> set m) (findall make_weirdness_regex classes))
          \<le> length (findall make_weirdness_regex classes)"
    by (rule length_filter_le)
  with eq show ?thesis by simp
qed

text \<open>
  C7. The empty string has weirdness 0 and cost 0, given that NFC maps the empty string
  to itself and that the literal run of the sixth mojibake alternative is not empty.
\<close>

theorem empty_string_scores_zero:
  assumes "normalize_NFC E [] = []" and "run6 g \<noteq> []"
  shows "sequence_weirdness E (module_import E g) [] = 0 \<and> text_cost E (module_import E g) [] = 0"
proof -
  have "findall common_symbol_regex [] = []"
    by (simp add: common_symbol_regex_def)
  then show ?thesis
    using assms
    by (simp add: text_cost_def sequence_weirdness_def globals_simps chars_to_classes_def
        weirdness_regex_Nil mojibake_regex_Nil del: findall.simps)
qed

text \<open>With the concrete configuration.\<close>

theorem empty_string_scores_zero_witness:
  "normalize_NFC sample_externals [] = [] \<and> run6 sample_chars \<noteq> []
   \<and> sequence_weirdness sample_externals (module_import sample_externals sample_chars) [] = 0
   \<and> text_cost sample_externals (module_import sample_externals sample_chars) [] = 0"
proof -
  have h1: "normalize_NFC sample_externals [] = []" by (simp add: sample_externals_def)
  have h2: "run6 sample_chars \<noteq> []" by (simp add: sample_chars_def)
  show ?thesis using h1 h2 empty_string_scores_zero[OF h1 h2] by simp
qed


text \<open>
  C9. The functions are deterministic and change no shared state: any sequence of calls
  returns, leaves the module globals as it found them, and each of its calls returns the
  value that depends on the argument of that call and on the initial globals only, so
  that equal arguments give equal results wherever the calls stand in the sequence.
\<close>

theorem calls_leave_globals_alone:
  "run E cs G = Some (map (pure_result E G) cs, G)"
proof (induction cs)
  case Nil
  show ?case by (simp add: py_return_def)
next
  case (Cons c cs)
  then show ?case by (simp add: py_bind_def py_return_def exec_returns)
qed

text \<open>
  C10. The weirdness is at least minus the number of characters of the NFC form: each
  common-symbol match is one character of the normalized text, and the other two counts
  only add.
\<close>

theorem weirdness_lower_bound:
  "- int (length (normalize_NFC E text)) \<le> sequence_weirdness E (module_import E g) text"
proof -
  have "int (length (findall common_symbol_regex (normalize_NFC E text)))
          \<le> int (length (normalize_NFC E text))"
    using common_regex_le[of "normalize_NFC E text"] by simp
  then show ?thesis
    by (simp add: sequence_weirdness_def globals_simps Let_def)
qed

end
